theory Spec2Isabelle
  imports Main "HOL-Library.Multiset" "HOL-Library.Sublist" "HOL-Library.Word"
begin

section \<open>The application shell (src/App.tsx)\<close>

text \<open>
  The component \<open>App\<close> keeps four pieces of React state that matter for the vault:
  \<open>appState\<close>, \<open>items\<close>, \<open>recoveryKey\<close> and \<open>error\<close> (lines 45-48). Every handler
  is a function from the state before to the state after: the handler run from start
  to end with nothing happening in between. What can happen while a handler waits is
  modelled with the events further down. A call into
  \<open>VaultService\<close> is a parameter of the handler: a function from the call's arguments
  to its outcome, \<open>Inr v\<close> when the promise resolves with \<open>v\<close> and \<open>Inl e\<close> when it
  rejects with the exception \<open>e\<close>. The type of exceptions is left open (\<open>'e\<close>), since
  a \<open>catch (e)\<close> of the source accepts every thrown value.
\<close>

subsection \<open>Data\<close>

datatype AppState = LOADING | SETUP | LOCKED | RECOVERY_SUCCESS | UNLOCKED

text \<open>\<open>VaultItem\<close> as \<open>handleAdd\<close> builds it (line 119); the field \<open>id\<close> is \<open>id_item\<close> here.\<close>

record VaultItem =
  id_item :: string
  title :: string
  username :: string
  password :: string

record app =
  appState :: AppState
  items :: "VaultItem list"
  recoveryKey :: "string option"
  error :: "string option"

text \<open>The values of the four \<open>useState\<close> calls at mount (lines 45-48).\<close>

definition initial :: app where
  "initial = \<lparr>appState = LOADING, items = [], recoveryKey = None, error = None\<rparr>"

datatype visibility = Hidden | Visible

subsection \<open>Handlers\<close>

text \<open>\<open>handleLock\<close>, lines 51-55.\<close>

definition handleLock :: "app \<Rightarrow> app" where
  "handleLock s = s\<lparr>items := [], appState := LOCKED, error := None\<rparr>"

text \<open>\<open>handleVisibilityChange\<close>, lines 58-62: the guard names \<open>UNLOCKED\<close> only.\<close>

definition handleVisibilityChange :: "visibility \<Rightarrow> app \<Rightarrow> app" where
  "handleVisibilityChange v s =
     (if v = Hidden \<and> appState s = UNLOCKED then handleLock s else s)"

text \<open>\<open>checkState\<close>, lines 68-71; the argument is what \<open>hasExistingVault\<close> resolved to.\<close>

definition checkState :: "bool \<Rightarrow> app \<Rightarrow> app" where
  "checkState hasVault s = s\<lparr>appState := (if hasVault then LOCKED else SETUP)\<rparr>"

text \<open>\<open>handleSetup\<close>, lines 75-84.\<close>

definition handleSetup :: "(string \<Rightarrow> 'e + string) \<Rightarrow> string \<Rightarrow> app \<Rightarrow> app" where
  "handleSetup initializeVault pwd s =
     (let s1 = s\<lparr>error := None\<rparr> in
      case initializeVault pwd of
        Inr rKey \<Rightarrow> s1\<lparr>recoveryKey := Some rKey, items := [], appState := UNLOCKED\<rparr>
      | Inl e \<Rightarrow> s1\<lparr>error := Some ''Failed to initialize vault.''\<rparr>)"

text \<open>\<open>handleUnlock\<close>, lines 86-94.\<close>

definition handleUnlock :: "(string \<Rightarrow> 'e + VaultItem list) \<Rightarrow> string \<Rightarrow> app \<Rightarrow> app" where
  "handleUnlock unlockVault pwd s =
     (let s1 = s\<lparr>error := None\<rparr> in
      case unlockVault pwd of
        Inr decryptedItems \<Rightarrow> s1\<lparr>items := decryptedItems, appState := UNLOCKED\<rparr>
      | Inl e \<Rightarrow> s1\<lparr>error := Some ''Invalid master password.''\<rparr>)"

text \<open>\<open>handleRecover\<close>, lines 96-104.\<close>

definition handleRecover :: "(string \<Rightarrow> 'e + VaultItem list) \<Rightarrow> string \<Rightarrow> app \<Rightarrow> app" where
  "handleRecover recoverVault rKey s =
     (let s1 = s\<lparr>error := None\<rparr> in
      case recoverVault rKey of
        Inr decryptedItems \<Rightarrow> s1\<lparr>items := decryptedItems, appState := RECOVERY_SUCCESS\<rparr>
      | Inl e \<Rightarrow> s1\<lparr>error := Some ''Invalid recovery key.''\<rparr>)"

text \<open>
  \<open>handlePasswordReset\<close>, lines 106-116. The \<open>catch\<close> sets the error and throws \<open>e\<close>
  again, so the handler's own promise is part of the result.
\<close>

definition handlePasswordReset ::
  "(string \<Rightarrow> 'e + unit) \<Rightarrow> string \<Rightarrow> app \<Rightarrow> ('e + unit) \<times> app" where
  "handlePasswordReset resetMasterPassword newPwd s =
     (let s1 = s\<lparr>error := None\<rparr> in
      case resetMasterPassword newPwd of
        Inr u \<Rightarrow> (Inr (), s1\<lparr>appState := UNLOCKED\<rparr>)
      | Inl e \<Rightarrow>
          (Inl e, s1\<lparr>error := Some ''Failed to update master password. Hardware key error.''\<rparr>))"

text \<open>
  \<open>handleAdd\<close>, lines 118-123. \<open>uuid\<close> is what \<open>crypto.randomUUID()\<close> returned. The part
  of the handler that runs before \<open>saveVault\<close> is called is \<open>handleAdd_sync\<close>: it returns
  the collection handed to \<open>saveVault\<close> and the state in which the handler then waits.
  Nothing follows the \<open>await\<close>, and nothing catches a rejection: the handler's promise
  settles as \<open>saveVault\<close>'s does.
\<close>

definition handleAdd_sync ::
  "string \<Rightarrow> string \<Rightarrow> string \<Rightarrow> string \<Rightarrow> app \<Rightarrow> VaultItem list \<times> app" where
  "handleAdd_sync uuid ttl user pass s =
     (let newItem = \<lparr>id_item = uuid, title = ttl, username = user, password = pass\<rparr>;
          updated = items s @ [newItem]
      in (updated, s\<lparr>items := updated\<rparr>))"

definition handleAdd ::
  "(VaultItem list \<Rightarrow> 'e + unit) \<Rightarrow> string \<Rightarrow> string \<Rightarrow> string \<Rightarrow> string \<Rightarrow> app
     \<Rightarrow> ('e + unit) \<times> app" where
  "handleAdd saveVault uuid ttl user pass s =
     (case handleAdd_sync uuid ttl user pass s of
        (updated, s1) \<Rightarrow> (saveVault updated, s1))"

text \<open>\<open>handleDelete\<close>, lines 125-129, split the same way.\<close>

definition handleDelete_sync :: "string \<Rightarrow> app \<Rightarrow> VaultItem list \<times> app" where
  "handleDelete_sync i s =
     (let updated = filter (\<lambda>x. id_item x \<noteq> i) (items s)
      in (updated, s\<lparr>items := updated\<rparr>))"

definition handleDelete ::
  "(VaultItem list \<Rightarrow> 'e + unit) \<Rightarrow> string \<Rightarrow> app \<Rightarrow> ('e + unit) \<times> app" where
  "handleDelete saveVault i s =
     (case handleDelete_sync i s of (updated, s1) \<Rightarrow> (saveVault updated, s1))"

subsection \<open>What is rendered\<close>

text \<open>
  Lines 135-167: in \<open>LOADING\<close> the component returns the spinner alone; otherwise
  exactly one screen is mounted, chosen by \<open>appState\<close>.
\<close>

datatype screen = Spinner | SetupScreen | LoginScreen | ResetPasswordScreen | VaultScreen

fun render :: "AppState \<Rightarrow> screen" where
  "render LOADING = Spinner"
| "render SETUP = SetupScreen"
| "render LOCKED = LoginScreen"
| "render RECOVERY_SUCCESS = ResetPasswordScreen"
| "render UNLOCKED = VaultScreen"

subsection \<open>Handlers in two parts, calls in flight, events and runs\<close>

text \<open>
  The four handlers that call the service and go on afterwards run in two parts, with
  other events free to happen in between. \<open>_sync\<close> is what runs at once, up to the
  first \<open>await\<close>: \<open>setError(null)\<close>. \<open>_settle\<close> is what runs when the service call
  has settled, on the state that holds then; nothing of the state is tested again
  (lines 79-83, 90-93, 100-103, 110-115). The handler as defined above is the two
  parts with nothing in between.
\<close>

definition handleSetup_sync :: "app \<Rightarrow> app" where
  "handleSetup_sync s = s\<lparr>error := None\<rparr>"

definition handleSetup_settle :: "'e + string \<Rightarrow> app \<Rightarrow> app" where
  "handleSetup_settle outcome s =
     (case outcome of
        Inr rKey \<Rightarrow> s\<lparr>recoveryKey := Some rKey, items := [], appState := UNLOCKED\<rparr>
      | Inl e \<Rightarrow> s\<lparr>error := Some ''Failed to initialize vault.''\<rparr>)"

definition handleUnlock_sync :: "app \<Rightarrow> app" where
  "handleUnlock_sync s = s\<lparr>error := None\<rparr>"

definition handleUnlock_settle :: "'e + VaultItem list \<Rightarrow> app \<Rightarrow> app" where
  "handleUnlock_settle outcome s =
     (case outcome of
        Inr decryptedItems \<Rightarrow> s\<lparr>items := decryptedItems, appState := UNLOCKED\<rparr>
      | Inl e \<Rightarrow> s\<lparr>error := Some ''Invalid master password.''\<rparr>)"

definition handleRecover_sync :: "app \<Rightarrow> app" where
  "handleRecover_sync s = s\<lparr>error := None\<rparr>"

definition handleRecover_settle :: "'e + VaultItem list \<Rightarrow> app \<Rightarrow> app" where
  "handleRecover_settle outcome s =
     (case outcome of
        Inr decryptedItems \<Rightarrow> s\<lparr>items := decryptedItems, appState := RECOVERY_SUCCESS\<rparr>
      | Inl e \<Rightarrow> s\<lparr>error := Some ''Invalid recovery key.''\<rparr>)"

definition handlePasswordReset_sync :: "app \<Rightarrow> app" where
  "handlePasswordReset_sync s = s\<lparr>error := None\<rparr>"

definition handlePasswordReset_settle :: "'e + unit \<Rightarrow> app \<Rightarrow> ('e + unit) \<times> app" where
  "handlePasswordReset_settle outcome s =
     (case outcome of
        Inr u \<Rightarrow> (Inr (), s\<lparr>appState := UNLOCKED\<rparr>)
      | Inl e \<Rightarrow>
          (Inl e, s\<lparr>error := Some ''Failed to update master password. Hardware key error.''\<rparr>))"

text \<open>
  A service call in flight: the handler has run its first part and waits. \<open>onUnlock\<close>
  is called from the Unlock button, which is disabled while the screen's \<open>loading\<close>
  flag is set (line 353), and from the Enter key of the password field, which is not
  (line 349): several calls can be in flight at once. The state of the running
  application is the React state together with the calls in flight.
\<close>

datatype call = SetupCall string | UnlockCall string | RecoverCall string | ResetCall string

type_synonym world = "app \<times> call list"

text \<open>At mount no handler has run; the mount effect is accounted for by \<open>LOADING\<close>.\<close>

definition at_mount :: world where
  "at_mount = (initial, [])"

text \<open>
  An event is the delivery of a user action or of the window's visibility change, or
  the settling of a service call in flight with its outcome. \<open>CheckStateDone b\<close> is
  the mount effect of lines 67-73 (dependency list \<open>[]\<close>, so it runs once per mount)
  at the moment \<open>hasExistingVault\<close> has resolved to \<open>b\<close>. Nothing follows the
  \<open>await\<close> of \<open>handleAdd\<close> and \<open>handleDelete\<close>, so the settling of their
  \<open>saveVault\<close> changes no state and is part of the one event.
\<close>

datatype 'e event =
    CheckStateDone bool
  | VisibilityChange visibility
  | SetupSubmit string
  | SetupSettled string "'e + string"
  | UnlockSubmit string
  | UnlockSettled string "'e + VaultItem list"
  | RecoverSubmit string
  | RecoverSettled string "'e + VaultItem list"
  | ClearError
  | ResetSubmit string
  | ResetSettled string "'e + unit"
  | AddItem string string string string "'e + unit"
  | DeleteItem string "'e + unit"
  | LockClick
  | CloseRecovery

text \<open>
  The strength score of \<open>SetupScreen\<close>, lines 216-224: 25 points each for a length
  of at least 12, an uppercase letter, a digit, and a character that is neither a
  letter nor a digit. The three regular expressions test ASCII ranges; a character is
  read by its code.
\<close>

definition is_upper :: "char \<Rightarrow> bool" where
  "is_upper c = (65 \<le> (of_char c :: nat) \<and> (of_char c :: nat) \<le> 90)"

definition is_lower :: "char \<Rightarrow> bool" where
  "is_lower c = (97 \<le> (of_char c :: nat) \<and> (of_char c :: nat) \<le> 122)"

definition is_digit :: "char \<Rightarrow> bool" where
  "is_digit c = (48 \<le> (of_char c :: nat) \<and> (of_char c :: nat) \<le> 57)"

definition strength :: "string \<Rightarrow> nat" where
  "strength pwd =
     (if pwd = [] then 0
      else (if 12 \<le> length pwd then 25 else 0) +
           (if list_ex is_upper pwd then 25 else 0) +
           (if list_ex is_digit pwd then 25 else 0) +
           (if list_ex (\<lambda>c. \<not> (is_upper c \<or> is_lower c \<or> is_digit c)) pwd then 25 else 0))"

text \<open>
  \<open>enabled w ev\<close>: in \<open>w\<close> the event \<open>ev\<close> can happen. A user action needs the screen
  that delivers it to be mounted; a call settles whenever it is in flight, whatever
  the state has become. The window listener of lines 63-64 is registered in every
  state. The mount effect is pending only while the state is \<open>LOADING\<close>. The Create
  button of \<open>SetupScreen\<close> needs a strength of at least 75 (lines 226 and 262).
  \<open>VaultScreen\<close> shows the recovery key alone while \<open>recoveryKey\<close> is set (lines
  385-400), its Save button needs a title and a password (line 438), and a delete
  button exists per displayed item (line 381). The Restore button needs a key (line
  334), the Update button a password (line 295). State that is local to a screen (the
  confirmation fields, the \<open>loading\<close> flags, the add form being open) is not part of
  \<open>app\<close>; it can only withhold an event that \<open>enabled\<close> admits.
\<close>

fun enabled :: "world \<Rightarrow> 'e event \<Rightarrow> bool" where
  "enabled (s, fl) (CheckStateDone b) = (appState s = LOADING)"
| "enabled (s, fl) (VisibilityChange v) = True"
| "enabled (s, fl) (SetupSubmit pwd) = (appState s = SETUP \<and> 75 \<le> strength pwd)"
| "enabled (s, fl) (SetupSettled pwd r) = (SetupCall pwd \<in> set fl)"
| "enabled (s, fl) (UnlockSubmit pwd) = (appState s = LOCKED)"
| "enabled (s, fl) (UnlockSettled pwd r) = (UnlockCall pwd \<in> set fl)"
| "enabled (s, fl) (RecoverSubmit k) = (appState s = LOCKED \<and> k \<noteq> [])"
| "enabled (s, fl) (RecoverSettled k r) = (RecoverCall k \<in> set fl)"
| "enabled (s, fl) ClearError = (appState s = LOCKED)"
| "enabled (s, fl) (ResetSubmit pwd) = (appState s = RECOVERY_SUCCESS \<and> pwd \<noteq> [])"
| "enabled (s, fl) (ResetSettled pwd r) = (ResetCall pwd \<in> set fl)"
| "enabled (s, fl) (AddItem uuid t u p r) =
     (appState s = UNLOCKED \<and> recoveryKey s = None \<and> t \<noteq> [] \<and> p \<noteq> [])"
| "enabled (s, fl) (DeleteItem i r) =
     (appState s = UNLOCKED \<and> recoveryKey s = None \<and> i \<in> set (map id_item (items s)))"
| "enabled (s, fl) LockClick = (appState s = UNLOCKED \<and> recoveryKey s = None)"
| "enabled (s, fl) CloseRecovery = (appState s = UNLOCKED \<and> recoveryKey s \<noteq> None)"

fun fire :: "'e event \<Rightarrow> world \<Rightarrow> world" where
  "fire (CheckStateDone b) (s, fl) = (checkState b s, fl)"
| "fire (VisibilityChange v) (s, fl) = (handleVisibilityChange v s, fl)"
| "fire (SetupSubmit pwd) (s, fl) = (handleSetup_sync s, fl @ [SetupCall pwd])"
| "fire (SetupSettled pwd r) (s, fl) = (handleSetup_settle r s, remove1 (SetupCall pwd) fl)"
| "fire (UnlockSubmit pwd) (s, fl) = (handleUnlock_sync s, fl @ [UnlockCall pwd])"
| "fire (UnlockSettled pwd r) (s, fl) = (handleUnlock_settle r s, remove1 (UnlockCall pwd) fl)"
| "fire (RecoverSubmit k) (s, fl) = (handleRecover_sync s, fl @ [RecoverCall k])"
| "fire (RecoverSettled k r) (s, fl) = (handleRecover_settle r s, remove1 (RecoverCall k) fl)"
| "fire ClearError (s, fl) = (s\<lparr>error := None\<rparr>, fl)"
| "fire (ResetSubmit pwd) (s, fl) = (handlePasswordReset_sync s, fl @ [ResetCall pwd])"
| "fire (ResetSettled pwd r) (s, fl) =
     (snd (handlePasswordReset_settle r s), remove1 (ResetCall pwd) fl)"
| "fire (AddItem uuid t u p r) (s, fl) = (snd (handleAdd (\<lambda>_. r) uuid t u p s), fl)"
| "fire (DeleteItem i r) (s, fl) = (snd (handleDelete (\<lambda>_. r) i s), fl)"
| "fire LockClick (s, fl) = (handleLock s, fl)"
| "fire CloseRecovery (s, fl) = (s\<lparr>recoveryKey := None\<rparr>, fl)"

text \<open>
  A run of the application: the events in the order they happen. An event that
  cannot happen in the state reached is left out.
\<close>

fun run :: "'e event list \<Rightarrow> world \<Rightarrow> world" where
  "run [] w = w"
| "run (ev # evs) w = run evs (if enabled w ev then fire ev w else w)"

text \<open>
  Decrypted items are in memory only while \<open>VaultScreen\<close> or \<open>ResetPasswordScreen\<close>
  is mounted: in the three other states the collection is empty.
\<close>

definition no_plaintext :: "app \<Rightarrow> bool" where
  "no_plaintext s =
     (if appState s = UNLOCKED \<or> appState s = RECOVERY_SUCCESS then True else items s = [])"

text \<open>
  Modelled from the spec: the body of \<open>VaultService.saveVault\<close> is not in the
  repository's sources, only its call sites are. Section 3 of the specification says
  that a successful save is followed by a record that reflects exactly the saved
  collection, and section 7 that no operation applies its effect in part. So the
  collection the Persistence Store holds after a call is the saved one when the call
  resolved, and the one held before when it rejected.
\<close>

definition persisted_after ::
  "'e + unit \<Rightarrow> VaultItem list \<Rightarrow> VaultItem list \<Rightarrow> VaultItem list" where
  "persisted_after outcome saved before = (case outcome of Inr u \<Rightarrow> saved | Inl e \<Rightarrow> before)"

section \<open>The vault engine (\<open>VaultService\<close>), from the specification\<close>

text \<open>
  Modelled from the spec: the module \<open>./services/VaultService\<close> that line 25 of
  \<open>src/App.tsx\<close> imports is not among the repository's sources; only its call sites
  are. The definitions of this section follow sections 3, 4 and 7 of the
  specification. What the specification leaves to the implementation (the key
  derivation function, the authenticated cipher, the serialization of the collection)
  is a parameter, and so is everything drawn from the random number generator and the
  outcome of every write to the Persistence Store.
\<close>

subsection \<open>Data (section 3)\<close>

type_synonym bytes = "8 word list"

text \<open>
  Modelled from the spec: the error taxonomy of section 7; the service's own error
  values are not in the sources.
\<close>

datatype failure =
    AuthFailure | AlreadyInitialized | NotRecovered | NotUnlocked | StorageFailure
  | InvalidParameters

text \<open>
  Modelled from the spec: the \<open>VaultRecord\<close> of section 3 with its KDF parameters
  and wrapped keys; the stored format is not in the sources.
\<close>

record kdf_parameters =
  algorithm :: string
  salt :: bytes
  cost :: nat

record wrapped_key =
  nonce :: bytes
  ciphertext :: bytes

record VaultRecord =
  version :: nat
  kdf_params :: kdf_parameters
  wrapped_vek_by_password :: wrapped_key
  recovery_kdf_params :: kdf_parameters
  wrapped_vek_by_recovery :: wrapped_key
  items_nonce :: bytes
  items_ciphertext :: bytes

text \<open>
  Modelled from the spec: the leaf modules of sections 4.1 and 4.2 by their contracts,
  \<open>derive(secret, salt, params)\<close>, \<open>seal(key, nonce, plaintext)\<close> and
  \<open>open(key, nonce, ciphertext)\<close> (here \<open>unseal\<close>, \<open>None\<close> for \<open>AuthFailure\<close>), and the
  serialization of the item collection.
\<close>

record primitives =
  derive :: "bytes \<Rightarrow> bytes \<Rightarrow> kdf_parameters \<Rightarrow> bytes"
  seal :: "bytes \<Rightarrow> bytes \<Rightarrow> bytes \<Rightarrow> bytes"
  unseal :: "bytes \<Rightarrow> bytes \<Rightarrow> bytes \<Rightarrow> bytes option"
  serialize :: "VaultItem list \<Rightarrow> bytes"
  deserialize :: "bytes \<Rightarrow> VaultItem list option"

text \<open>
  Modelled from the spec: what the engine holds in memory between a successful unlock
  or recovery and a lock (the VEK and the decrypted collection, with the mark that a
  password reset is required), and the one record of the Persistence Store.
\<close>

record session =
  vek :: bytes
  held_items :: "VaultItem list"
  recovered :: bool

record engine =
  stored :: "VaultRecord option"
  session :: "session option"

text \<open>
  Modelled from the spec: the states of section 4.4, read off the engine: no record,
  a record and nothing in memory, or a session that is or is not a recovery.
\<close>

datatype vault_state = NoVault | Locked | Unlocked | Recovered

definition state_of :: "engine \<Rightarrow> vault_state" where
  "state_of e =
     (case stored e of
        None \<Rightarrow> NoVault
      | Some r \<Rightarrow>
          (case session e of
             None \<Rightarrow> Locked
           | Some ss \<Rightarrow> if recovered ss then Recovered else Unlocked))"

text \<open>Modelled from the spec: the engine before \<open>initialize\<close>, with an empty store.\<close>

definition no_vault :: engine where
  "no_vault = \<lparr>stored = None, session = None\<rparr>"

text \<open>
  Modelled from the spec: what \<open>initialize\<close> (section 4.3: a fresh VEK, a fresh
  recovery secret, fresh parameters and a fresh nonce per seal) and
  \<open>resetMasterPassword\<close> (new parameters and a new nonce) draw from the random
  number generator.
\<close>

record init_entropy =
  fresh_vek :: bytes
  fresh_recovery_secret :: string
  fresh_password_params :: kdf_parameters
  fresh_password_nonce :: bytes
  fresh_recovery_params :: kdf_parameters
  fresh_recovery_nonce :: bytes
  fresh_items_nonce :: bytes

record reset_entropy =
  fresh_params :: kdf_parameters
  fresh_nonce :: bytes

subsection \<open>Key escrow (section 4.3)\<close>

text \<open>
  Modelled from the spec: the key derived from a secret (the master password or the
  recovery secret, as its bytes) with the salt and parameters stored beside the
  wrapped key (section 4.1).
\<close>

definition secret_bytes :: "string \<Rightarrow> bytes" where
  "secret_bytes s = map of_char s"

definition derived_key :: "primitives \<Rightarrow> string \<Rightarrow> kdf_parameters \<Rightarrow> bytes" where
  "derived_key cr secret kp = derive cr (secret_bytes secret) (salt kp) kp"

text \<open>
  Modelled from the spec: \<open>wrap(vek, wrapping_key) -> (nonce, ciphertext)\<close> and
  \<open>unwrap(wrapping_key, nonce, ciphertext) -> VEK | AuthFailure\<close> of section 4.3.
\<close>

definition wrap :: "primitives \<Rightarrow> bytes \<Rightarrow> bytes \<Rightarrow> bytes \<Rightarrow> wrapped_key" where
  "wrap cr k wrapping_key n = \<lparr>nonce = n, ciphertext = seal cr wrapping_key n k\<rparr>"

definition unwrap :: "primitives \<Rightarrow> bytes \<Rightarrow> wrapped_key \<Rightarrow> failure + bytes" where
  "unwrap cr wrapping_key w =
     (case unseal cr wrapping_key (nonce w) (ciphertext w) of
        None \<Rightarrow> Inl AuthFailure
      | Some k \<Rightarrow> Inr k)"

text \<open>
  Modelled from the spec: the two escrow paths of a record (sections 3 and 4.3), each
  under the key derived from its own secret and its own stored parameters.
\<close>

definition vek_by_password :: "primitives \<Rightarrow> string \<Rightarrow> VaultRecord \<Rightarrow> failure + bytes" where
  "vek_by_password cr pwd r =
     unwrap cr (derived_key cr pwd (kdf_params r)) (wrapped_vek_by_password r)"

definition vek_by_recovery :: "primitives \<Rightarrow> string \<Rightarrow> VaultRecord \<Rightarrow> failure + bytes" where
  "vek_by_recovery cr secret r =
     unwrap cr (derived_key cr secret (recovery_kdf_params r)) (wrapped_vek_by_recovery r)"

text \<open>
  Modelled from the spec: the item ciphertext opened under the VEK and read back as a
  collection (section 3); a failure of either step is \<open>AuthFailure\<close> (section 7).
\<close>

definition open_items :: "primitives \<Rightarrow> bytes \<Rightarrow> VaultRecord \<Rightarrow> failure + VaultItem list" where
  "open_items cr k r =
     (case unseal cr k (items_nonce r) (items_ciphertext r) of
        None \<Rightarrow> Inl AuthFailure
      | Some plain \<Rightarrow>
          (case deserialize cr plain of
             None \<Rightarrow> Inl AuthFailure
           | Some its \<Rightarrow> Inr its))"

subsection \<open>The operations (sections 4.4 and 6)\<close>

text \<open>
  Modelled from the spec: \<open>hasExistingVault() -> bool\<close>, an existence check
  against the Persistence Store (section 4.4).
\<close>

definition hasExistingVault :: "engine \<Rightarrow> bool" where
  "hasExistingVault e = (stored e \<noteq> None)"

text \<open>
  Modelled from the spec: \<open>initializeVault\<close> (sections 4.3, 4.4 and 6). It refuses
  when a record exists; otherwise it wraps the one fresh VEK
  under the key derived from the password and under the key derived from the fresh
  recovery secret, seals the empty collection, writes the record and returns the
  recovery secret. \<open>write_ok\<close> is the outcome of the store's write.
\<close>

definition initializeVault ::
  "primitives \<Rightarrow> init_entropy \<Rightarrow> bool \<Rightarrow> string \<Rightarrow> engine \<Rightarrow> (failure + string) \<times> engine" where
  "initializeVault cr ent write_ok pwd e =
     (if stored e \<noteq> None then (Inl AlreadyInitialized, e)
      else
        let k = fresh_vek ent;
            r = \<lparr>version = 1,
                 kdf_params = fresh_password_params ent,
                 wrapped_vek_by_password =
                   wrap cr k (derived_key cr pwd (fresh_password_params ent))
                     (fresh_password_nonce ent),
                 recovery_kdf_params = fresh_recovery_params ent,
                 wrapped_vek_by_recovery =
                   wrap cr k (derived_key cr (fresh_recovery_secret ent) (fresh_recovery_params ent))
                     (fresh_recovery_nonce ent),
                 items_nonce = fresh_items_nonce ent,
                 items_ciphertext = seal cr k (fresh_items_nonce ent) (serialize cr [])\<rparr>
        in if write_ok
           then (Inr (fresh_recovery_secret ent),
                 \<lparr>stored = Some r,
                  session = Some \<lparr>vek = k, held_items = [], recovered = False\<rparr>\<rparr>)
           else (Inl StorageFailure, e))"

text \<open>
  Modelled from the spec: \<open>unlockVault\<close> and \<open>recoverVault\<close> (sections 4.4, 6 and
  7). Every failure is \<open>AuthFailure\<close>, a missing record included, and a failure
  leaves the engine as it was; a success puts the VEK and the items in memory, and a
  recovery marks the session as one that requires a password reset.
\<close>

definition unlockVault ::
  "primitives \<Rightarrow> string \<Rightarrow> engine \<Rightarrow> (failure + VaultItem list) \<times> engine" where
  "unlockVault cr pwd e =
     (case stored e of
        None \<Rightarrow> (Inl AuthFailure, e)
      | Some r \<Rightarrow>
          (case vek_by_password cr pwd r of
             Inl f \<Rightarrow> (Inl AuthFailure, e)
           | Inr k \<Rightarrow>
               (case open_items cr k r of
                  Inl f \<Rightarrow> (Inl AuthFailure, e)
                | Inr its \<Rightarrow>
                    (Inr its,
                     e\<lparr>session := Some \<lparr>vek = k, held_items = its, recovered = False\<rparr>\<rparr>))))"

definition recoverVault ::
  "primitives \<Rightarrow> string \<Rightarrow> engine \<Rightarrow> (failure + VaultItem list) \<times> engine" where
  "recoverVault cr secret e =
     (case stored e of
        None \<Rightarrow> (Inl AuthFailure, e)
      | Some r \<Rightarrow>
          (case vek_by_recovery cr secret r of
             Inl f \<Rightarrow> (Inl AuthFailure, e)
           | Inr k \<Rightarrow>
               (case open_items cr k r of
                  Inl f \<Rightarrow> (Inl AuthFailure, e)
                | Inr its \<Rightarrow>
                    (Inr its,
                     e\<lparr>session := Some \<lparr>vek = k, held_items = its, recovered = True\<rparr>\<rparr>))))"

text \<open>
  Modelled from the spec: \<open>resetMasterPassword\<close> (sections 4.3, 4.4 and 6). It needs
  a recovery in this session (\<open>NotRecovered\<close> otherwise), wraps the VEK in memory
  under the key derived from the new password and fresh parameters, and replaces the
  password escrow fields only; a failed write is \<open>StorageFailure\<close> and changes
  nothing.
\<close>

definition resetMasterPassword ::
  "primitives \<Rightarrow> reset_entropy \<Rightarrow> bool \<Rightarrow> string \<Rightarrow> engine \<Rightarrow> (failure + unit) \<times> engine" where
  "resetMasterPassword cr ent write_ok newPwd e =
     (case session e of
        None \<Rightarrow> (Inl NotRecovered, e)
      | Some ss \<Rightarrow>
          (case stored e of
             None \<Rightarrow> (Inl NotRecovered, e)
           | Some r \<Rightarrow>
               if \<not> recovered ss then (Inl NotRecovered, e)
               else if write_ok
               then (Inr (),
                     \<lparr>stored = Some (r\<lparr>kdf_params := fresh_params ent,
                          wrapped_vek_by_password :=
                            wrap cr (vek ss) (derived_key cr newPwd (fresh_params ent))
                              (fresh_nonce ent)\<rparr>),
                      session = Some (ss\<lparr>recovered := False\<rparr>)\<rparr>)
               else (Inl StorageFailure, e)))"

text \<open>
  Modelled from the spec: \<open>saveVault\<close> (sections 4.4 and 6). It seals the whole
  collection under the VEK in memory with a fresh nonce; without a session it is
  \<open>NotUnlocked\<close>, and a failed write is \<open>StorageFailure\<close> and changes nothing.
\<close>

definition saveVault ::
  "primitives \<Rightarrow> bytes \<Rightarrow> bool \<Rightarrow> VaultItem list \<Rightarrow> engine \<Rightarrow> (failure + unit) \<times> engine" where
  "saveVault cr n write_ok its e =
     (case session e of
        None \<Rightarrow> (Inl NotUnlocked, e)
      | Some ss \<Rightarrow>
          (case stored e of
             None \<Rightarrow> (Inl NotUnlocked, e)
           | Some r \<Rightarrow>
               if write_ok
               then (Inr (),
                     \<lparr>stored = Some (r\<lparr>items_nonce := n,
                          items_ciphertext := seal cr (vek ss) n (serialize cr its)\<rparr>),
                      session = Some (ss\<lparr>held_items := its\<rparr>)\<rparr>)
               else (Inl StorageFailure, e)))"

text \<open>Modelled from the spec: \<open>lock()\<close> discards the VEK and the items in memory.\<close>

definition lock :: "engine \<Rightarrow> engine" where
  "lock e = e\<lparr>session := None\<rparr>"

subsection \<open>The contracts of the leaf modules\<close>

text \<open>
  Modelled from the spec: the contract of section 4.2. \<open>open\<close> returns what \<open>seal\<close>
  was given; and it fails closed: under whatever key and nonce, it never returns a
  plaintext other than the sealed one (the negligible chance of a forgery is taken to
  be none). The serialized collection is read back as written.
\<close>

definition aead_correct :: "primitives \<Rightarrow> bool" where
  "aead_correct cr = (\<forall>k n p. unseal cr k n (seal cr k n p) = Some p)"

definition aead_fails_closed :: "primitives \<Rightarrow> bool" where
  "aead_fails_closed cr =
     (\<forall>k n p k' n' q. unseal cr k' n' (seal cr k n p) = Some q \<longrightarrow> q = p)"

definition serialize_correct :: "primitives \<Rightarrow> bool" where
  "serialize_correct cr = (\<forall>c. deserialize cr (serialize cr c) = Some c)"

subsection \<open>An instance of the leaf modules\<close>

text \<open>
  A small instance that meets the three contracts, for evaluating the engine on
  concrete input; it stands for no code of the repository. It is no cipher: the sealed text is the plaintext behind a one-byte
  tag computed from key and nonce. A string is written as its characters, each after
  the byte 1, and closed by the byte 0; an item is its four strings in a row.
\<close>

definition toy_derive :: "bytes \<Rightarrow> bytes \<Rightarrow> kdf_parameters \<Rightarrow> bytes" where
  "toy_derive secret slt kp = slt @ secret"

definition toy_seal :: "bytes \<Rightarrow> bytes \<Rightarrow> bytes \<Rightarrow> bytes" where
  "toy_seal k n p = sum_list (k @ n) # p"

definition toy_unseal :: "bytes \<Rightarrow> bytes \<Rightarrow> bytes \<Rightarrow> bytes option" where
  "toy_unseal k n c =
     (case c of
        [] \<Rightarrow> None
      | t # p \<Rightarrow> if t = sum_list (k @ n) then Some p else None)"

fun write_string :: "string \<Rightarrow> bytes" where
  "write_string [] = [0]"
| "write_string (c # cs) = 1 # of_char c # write_string cs"

fun read_strings :: "string \<Rightarrow> bytes \<Rightarrow> string list option" where
  "read_strings cur [] = (if cur = [] then Some [] else None)"
| "read_strings cur [t] = (if t = 0 then Some [rev cur] else None)"
| "read_strings cur (t # b # bs) =
     (if t = 0 then map_option ((#) (rev cur)) (read_strings [] (b # bs))
      else read_strings (char_of (unat b) # cur) bs)"

fun item_strings :: "VaultItem list \<Rightarrow> string list" where
  "item_strings [] = []"
| "item_strings (x # xs) =
     id_item x # title x # username x # password x # item_strings xs"

fun strings_items :: "string list \<Rightarrow> VaultItem list option" where
  "strings_items [] = Some []"
| "strings_items (a # b # c # d # ss) =
     map_option ((#) \<lparr>id_item = a, title = b, username = c, password = d\<rparr>) (strings_items ss)"
| "strings_items ss = None"

definition toy_serialize :: "VaultItem list \<Rightarrow> bytes" where
  "toy_serialize xs = concat (map write_string (item_strings xs))"

definition toy_deserialize :: "bytes \<Rightarrow> VaultItem list option" where
  "toy_deserialize bs =
     (case read_strings [] bs of None \<Rightarrow> None | Some ss \<Rightarrow> strings_items ss)"

definition toy :: primitives where
  "toy = \<lparr>derive = toy_derive, seal = toy_seal, unseal = toy_unseal,
          serialize = toy_serialize, deserialize = toy_deserialize\<rparr>"

subsection \<open>Sequences of operations\<close>

text \<open>
  Modelled from the spec: the operations of the table in section 4.4, as values. Each
  is an operation on the engine, with what it draws from the random number
  generator and with the outcome of its write. \<open>apply_op\<close> runs it and keeps, beside
  the engine, the master password in force: the one given to \<open>initialize\<close>, replaced
  by each \<open>resetMasterPassword\<close> that succeeds.
\<close>

datatype engine_op =
    OpInitialize init_entropy bool string
  | OpUnlock string
  | OpRecover string
  | OpReset reset_entropy bool string
  | OpSave bytes bool "VaultItem list"
  | OpLock

fun apply_op :: "primitives \<Rightarrow> engine_op \<Rightarrow> engine \<times> string \<Rightarrow> engine \<times> string" where
  "apply_op cr (OpInitialize ent ok pwd) (e, master) =
     (snd (initializeVault cr ent ok pwd e), master)"
| "apply_op cr (OpUnlock pwd) (e, master) = (snd (unlockVault cr pwd e), master)"
| "apply_op cr (OpRecover secret) (e, master) = (snd (recoverVault cr secret e), master)"
| "apply_op cr (OpReset ent ok newPwd) (e, master) =
     (case resetMasterPassword cr ent ok newPwd e of
        (Inr u, e') \<Rightarrow> (e', newPwd)
      | (Inl f, e') \<Rightarrow> (e', master))"
| "apply_op cr (OpSave n ok its) (e, master) = (snd (saveVault cr n ok its e), master)"
| "apply_op cr OpLock (e, master) = (lock e, master)"

fun apply_ops :: "primitives \<Rightarrow> engine_op list \<Rightarrow> engine \<times> string \<Rightarrow> engine \<times> string" where
  "apply_ops cr [] st = st"
| "apply_ops cr (x # xs) st = apply_ops cr xs (apply_op cr x st)"

text \<open>
  Modelled from the spec: the dual-escrow invariant of section 3, for a record, the
  VEK \<open>k\<close>, the master password in force and the recovery secret: both wrapped
  copies are seals of \<open>k\<close> and open to \<open>k\<close> under the key derived from their own
  secret, the item ciphertext is a seal under \<open>k\<close> of a serialized collection, and a
  VEK held in memory is \<open>k\<close>.
\<close>

definition escrow_ok ::
  "primitives \<Rightarrow> bytes \<Rightarrow> string \<Rightarrow> engine \<times> string \<Rightarrow> bool" where
  "escrow_ok cr k secret st =
     (case stored (fst st) of
        None \<Rightarrow> False
      | Some r \<Rightarrow>
          vek_by_password cr (snd st) r = Inr k \<and>
          vek_by_recovery cr secret r = Inr k \<and>
          (\<exists>wk. ciphertext (wrapped_vek_by_password r) =
                  seal cr wk (nonce (wrapped_vek_by_password r)) k) \<and>
          (\<exists>wk. ciphertext (wrapped_vek_by_recovery r) =
                  seal cr wk (nonce (wrapped_vek_by_recovery r)) k) \<and>
          (\<exists>its. items_ciphertext r = seal cr k (items_nonce r) (serialize cr its)) \<and>
          (case session (fst st) of None \<Rightarrow> True | Some ss \<Rightarrow> vek ss = k))"

text \<open>Modelled from the spec: the inputs of the scenario of section 8.\<close>

definition example_entropy :: init_entropy where
  "example_entropy =
     \<lparr>fresh_vek = [11, 22, 33, 44],
      fresh_recovery_secret = ''00112233445566778899aabbccddeeff0011223344556677'',
      fresh_password_params = \<lparr>algorithm = ''kdf'', salt = [1, 2], cost = 3\<rparr>,
      fresh_password_nonce = [5],
      fresh_recovery_params = \<lparr>algorithm = ''kdf'', salt = [3, 4], cost = 3\<rparr>,
      fresh_recovery_nonce = [6],
      fresh_items_nonce = [7]\<rparr>"

definition example_items :: "VaultItem list" where
  "example_items =
     [\<lparr>id_item = ''1'', title = ''Example'', username = ''a@b.com'', password = ''x''\<rparr>]"

definition example_reset :: reset_entropy where
  "example_reset =
     \<lparr>fresh_params = \<lparr>algorithm = ''kdf'', salt = [9, 9], cost = 3\<rparr>, fresh_nonce = [8]\<rparr>"

subsection \<open>Password generator (section 4.6)\<close>

text \<open>
  Modelled from the spec: \<open>VaultService.generateSecurePassword\<close> is called on line
  434 of \<open>src/App.tsx\<close>; its body is not among the sources. Section 4.6 gives the
  contract \<open>generate(length, required classes) -> string\<close>: one character from each
  required class, every remaining position drawn over all the classes together, and
  failure only on an invalid length or class configuration. \<open>rng i\<close> is the \<open>i\<close>-th
  number the random number generator hands out. The specification does not say where
  the required characters stand; here they come first.
\<close>

text \<open>
  Modelled from the spec: the four required character classes (uppercase, lowercase,
  digit, symbol); the symbol set is not given by the specification.
\<close>

definition uppercase :: string where
  "uppercase = ''ABCDEFGHIJKLMNOPQRSTUVWXYZ''"

definition lowercase :: string where
  "lowercase = ''abcdefghijklmnopqrstuvwxyz''"

definition digits :: string where
  "digits = ''0123456789''"

definition symbols :: string where
  "symbols = ''!@#$%^&*()-_=+''"

text \<open>Modelled from the spec: one character of a class, chosen by a random number.\<close>

definition pick :: "string \<Rightarrow> nat \<Rightarrow> char" where
  "pick cls r = cls ! (r mod length cls)"

text \<open>
  Modelled from the spec: \<open>generate(length, required classes)\<close>. An empty class, no
  class, or a length below the number of classes is \<open>InvalidParameters\<close>.
\<close>

definition generate :: "(nat \<Rightarrow> nat) \<Rightarrow> nat \<Rightarrow> string list \<Rightarrow> failure + string" where
  "generate rng len classes =
     (if len < length classes \<or> classes = [] \<or> [] \<in> set classes
      then Inl InvalidParameters
      else Inr (map (\<lambda>i. pick (classes ! i) (rng i)) [0..<length classes] @
                map (\<lambda>i. pick (concat classes) (rng i)) [length classes..<len]))"

text \<open>
  Modelled from the spec: \<open>generateSecurePassword(length)\<close> of section 6, with the
  four classes required.
\<close>

definition generateSecurePassword :: "(nat \<Rightarrow> nat) \<Rightarrow> nat \<Rightarrow> failure + string" where
  "generateSecurePassword rng len = generate rng len [uppercase, lowercase, digits, symbols]"

section \<open>Properties of the application shell\<close>

subsection \<open>The two parts of a handler\<close>

lemma handleSetup_parts:
  "handleSetup init_call pwd s = handleSetup_settle (init_call pwd) (handleSetup_sync s)"
  by (simp add: handleSetup_def handleSetup_sync_def handleSetup_settle_def Let_def)

lemma handleUnlock_parts:
  "handleUnlock unlock_call pwd s = handleUnlock_settle (unlock_call pwd) (handleUnlock_sync s)"
  by (simp add: handleUnlock_def handleUnlock_sync_def handleUnlock_settle_def Let_def)

lemma handleRecover_parts:
  "handleRecover recover_call rKey s =
     handleRecover_settle (recover_call rKey) (handleRecover_sync s)"
  by (simp add: handleRecover_def handleRecover_sync_def handleRecover_settle_def Let_def)

lemma handlePasswordReset_parts:
  "handlePasswordReset reset_call newPwd s =
     handlePasswordReset_settle (reset_call newPwd) (handlePasswordReset_sync s)"
  by (simp add: handlePasswordReset_def handlePasswordReset_sync_def
      handlePasswordReset_settle_def Let_def)

subsection \<open>Invariants of a run\<close>

lemma no_plaintext_initial: "no_plaintext (fst at_mount)"
  by (simp add: no_plaintext_def at_mount_def initial_def)

lemma no_plaintext_fire:
  assumes "no_plaintext (fst w)" and "enabled w ev"
  shows "no_plaintext (fst (fire ev w))"
proof -
  obtain s fl where w: "w = (s, fl)"
    by (cases w)
  show ?thesis
    using assms unfolding w
    by (cases ev)
       (auto simp: no_plaintext_def checkState_def handleVisibilityChange_def handleLock_def handleSetup_sync_def
        handleSetup_settle_def handleUnlock_sync_def handleUnlock_settle_def handleRecover_sync_def
        handleRecover_settle_def handlePasswordReset_sync_def handlePasswordReset_settle_def
        handleAdd_def handleAdd_sync_def handleDelete_def handleDelete_sync_def Let_def
          split: sum.splits if_splits)
qed

lemma no_plaintext_run: "no_plaintext (fst w) \<Longrightarrow> no_plaintext (fst (run evs w))"
proof (induction evs arbitrary: w)
  case Nil
  then show ?case by simp
next
  case (Cons ev evs)
  then show ?case by (simp add: no_plaintext_fire)
qed

lemma locked_items_empty:
  "appState (fst (run evs at_mount)) = LOCKED \<Longrightarrow> items (fst (run evs at_mount)) = []"
  using no_plaintext_run[OF no_plaintext_initial, of evs]
  by (simp add: no_plaintext_def)

lemma fire_not_loading:
  assumes "appState (fst w) \<noteq> LOADING"
  shows "appState (fst (fire ev w)) \<noteq> LOADING"
proof -
  obtain s fl where w: "w = (s, fl)"
    by (cases w)
  show ?thesis
    using assms unfolding w
    by (cases ev)
       (auto simp: checkState_def handleVisibilityChange_def handleLock_def handleSetup_sync_def
        handleSetup_settle_def handleUnlock_sync_def handleUnlock_settle_def handleRecover_sync_def
        handleRecover_settle_def handlePasswordReset_sync_def handlePasswordReset_settle_def
        handleAdd_def handleAdd_sync_def handleDelete_def handleDelete_sync_def Let_def
          split: sum.splits if_splits)
qed

lemma never_loading_again:
  "appState (fst w) \<noteq> LOADING \<Longrightarrow> appState (fst (run evs w)) \<noteq> LOADING"
proof (induction evs arbitrary: w)
  case Nil
  then show ?case by simp
next
  case (Cons ev evs)
  then show ?case by (simp add: fire_not_loading)
qed

subsection \<open>Locking\<close>

text \<open>
  Claim C7. \<open>lock()\<close> is idempotent: from any state, a first call and a second call
  right after it both leave the state \<open>LOCKED\<close> with an empty in-memory collection,
  and the second call changes nothing.
\<close>

theorem handleLock_idempotent:
  "appState (handleLock s) = LOCKED \<and> items (handleLock s) = [] \<and>
   appState (handleLock (handleLock s)) = LOCKED \<and> items (handleLock (handleLock s)) = [] \<and>
   handleLock (handleLock s) = handleLock s"
  by (simp add: handleLock_def)

subsection \<open>Failed unlock and recovery\<close>

text \<open>
  A failing attempt by itself changes the error message and nothing else, in whatever
  state it settles; and where it settles with the login screen mounted, the state
  stays \<open>LOCKED\<close> and the collection empty.
\<close>

lemma failed_attempt_sets_error_only:
  "handleUnlock_settle (Inl e) s = s\<lparr>error := Some ''Invalid master password.''\<rparr>"
  "handleRecover_settle (Inl e) s = s\<lparr>error := Some ''Invalid recovery key.''\<rparr>"
  by (simp_all add: handleUnlock_settle_def handleRecover_settle_def)

lemma failed_attempt_in_locked:
  assumes "appState (fst (run evs at_mount)) = LOCKED"
  shows "appState (handleUnlock_settle (Inl e) (fst (run evs at_mount))) = LOCKED"
    and "items (handleUnlock_settle (Inl e) (fst (run evs at_mount))) = []"
    and "appState (handleRecover_settle (Inl e) (fst (run evs at_mount))) = LOCKED"
    and "items (handleRecover_settle (Inl e) (fst (run evs at_mount))) = []"
  using assms locked_items_empty[OF assms]
  by (simp_all add: failed_attempt_sets_error_only)


text \<open>
  Claim C5. Whatever makes \<open>unlockVault\<close> reject (wrong password, corrupted wrapped
  key, tampered ciphertext, bad salt: any exception of any type), the outcome the
  caller sees is the same: two failing runs from the same state end in equal states,
  with the one message \<open>Invalid master password.\<close>
\<close>

theorem unlock_failures_indistinguishable:
  assumes "unlock_call1 pwd1 = Inl e1" and "unlock_call2 pwd2 = Inl e2"
  shows "handleUnlock unlock_call1 pwd1 s = handleUnlock unlock_call2 pwd2 s \<and>
         handleUnlock unlock_call1 pwd1 s = s\<lparr>error := Some ''Invalid master password.''\<rparr>"
  using assms by (simp add: handleUnlock_def)

theorem unlock_failures_indistinguishable_witness:
  "handleUnlock (\<lambda>p. if p = ''hunter2'' then Inr [] else Inl ''wrong password'') ''guess''
     \<lparr>appState = LOCKED, items = [], recoveryKey = None, error = None\<rparr> =
   handleUnlock (\<lambda>p. Inl ''bad salt'') ''hunter2''
     \<lparr>appState = LOCKED, items = [], recoveryKey = None, error = None\<rparr>"
  using unlock_failures_indistinguishable
    [of "\<lambda>p. if p = ''hunter2'' then Inr [] else Inl ''wrong password''" "''guess''"
        "''wrong password''" "\<lambda>p. Inl ''bad salt''" "''hunter2''" "''bad salt''"
        "\<lparr>appState = LOCKED, items = [], recoveryKey = None, error = None\<rparr>"]
  by simp

subsection \<open>Loss of visibility\<close>

text \<open>
  Claim C4, as the code has it. When the application loses visibility while the state
  is \<open>UNLOCKED\<close>, \<open>handleLock\<close> runs: the in-memory collection is cleared and the
  state becomes \<open>LOCKED\<close>. While the state is \<open>RECOVERY_SUCCESS\<close> the guard of line 59
  is false and the event changes nothing: the decrypted items stay in memory.
\<close>

theorem visibility_lock_only_when_unlocked:
  "(appState s = UNLOCKED \<longrightarrow>
      handleVisibilityChange Hidden s = handleLock s \<and>
      items (handleVisibilityChange Hidden s) = [] \<and>
      appState (handleVisibilityChange Hidden s) = LOCKED) \<and>
   (appState s = RECOVERY_SUCCESS \<longrightarrow> handleVisibilityChange Hidden s = s)"
  by (simp add: handleVisibilityChange_def handleLock_def)

theorem visibility_lock_only_when_unlocked_witness:
  "items (handleVisibilityChange Hidden
      \<lparr>appState = UNLOCKED,
       items = [\<lparr>id_item = ''1'', title = ''Example'', username = ''a@b.com'', password = ''x''\<rparr>],
       recoveryKey = None, error = None\<rparr>) = [] \<and>
   appState (handleVisibilityChange Hidden
      \<lparr>appState = UNLOCKED,
       items = [\<lparr>id_item = ''1'', title = ''Example'', username = ''a@b.com'', password = ''x''\<rparr>],
       recoveryKey = None, error = None\<rparr>) = LOCKED \<and>
   handleVisibilityChange Hidden
      \<lparr>appState = RECOVERY_SUCCESS,
       items = [\<lparr>id_item = ''1'', title = ''Example'', username = ''a@b.com'', password = ''x''\<rparr>],
       recoveryKey = None, error = None\<rparr> =
      \<lparr>appState = RECOVERY_SUCCESS,
       items = [\<lparr>id_item = ''1'', title = ''Example'', username = ''a@b.com'', password = ''x''\<rparr>],
       recoveryKey = None, error = None\<rparr>"
  using visibility_lock_only_when_unlocked
    [of "\<lparr>appState = UNLOCKED,
       items = [\<lparr>id_item = ''1'', title = ''Example'', username = ''a@b.com'', password = ''x''\<rparr>],
       recoveryKey = None, error = None\<rparr>"]
    visibility_lock_only_when_unlocked
    [of "\<lparr>appState = RECOVERY_SUCCESS,
       items = [\<lparr>id_item = ''1'', title = ''Example'', username = ''a@b.com'', password = ''x''\<rparr>],
       recoveryKey = None, error = None\<rparr>"]
  by (simp add: handleLock_def)

text \<open>
  The claim as worded also covers the state after a recovery. There it fails: after
  the vault was recovered with one item, a loss of visibility leaves the state
  \<open>RECOVERY_SUCCESS\<close> and the item in memory.
\<close>

theorem hidden_while_recovered_keeps_items:
  "appState (handleVisibilityChange Hidden
     (fst (run [CheckStateDone True, RecoverSubmit ''00ff'',
           RecoverSettled ''00ff'' (Inr [\<lparr>id_item = ''1'', title = ''Example'', username = ''a@b.com'', password = ''x''\<rparr>]) :: unit event] at_mount)))
     = RECOVERY_SUCCESS \<and>
   items (handleVisibilityChange Hidden
     (fst (run [CheckStateDone True, RecoverSubmit ''00ff'',
           RecoverSettled ''00ff'' (Inr [\<lparr>id_item = ''1'', title = ''Example'', username = ''a@b.com'', password = ''x''\<rparr>]) :: unit event] at_mount)))
     = [\<lparr>id_item = ''1'', title = ''Example'', username = ''a@b.com'', password = ''x''\<rparr>]"
  by (simp add: at_mount_def initial_def checkState_def handleRecover_sync_def
      handleRecover_settle_def handleVisibilityChange_def)

subsection \<open>Recovery and password reset\<close>

text \<open>
  Claim C6. A successful recover from \<open>LOCKED\<close> moves to \<open>RECOVERY_SUCCESS\<close> with the
  decrypted items in memory, and a password reset is required: the only screen mounted
  is \<open>ResetPasswordScreen\<close>, and with no other call than resets in flight the only
  event that leaves the state is a reset that succeeds. From there a successful
  \<open>resetMasterPassword\<close> moves to \<open>UNLOCKED\<close>; a failed one (a \<open>StorageFailure\<close>,
  say) is thrown on to the caller and leaves the state \<open>RECOVERY_SUCCESS\<close> with the
  items still in memory.
\<close>

theorem recover_then_reset:
  assumes "appState s = LOCKED" and "recover_call rKey = Inr decrypted"
  shows "appState (handleRecover recover_call rKey s) = RECOVERY_SUCCESS \<and>
         items (handleRecover recover_call rKey s) = decrypted \<and>
         render (appState (handleRecover recover_call rKey s)) = ResetPasswordScreen \<and>
         (\<forall>(ev :: 'e event) fl.
            (\<forall>c \<in> set fl. \<exists>p. c = ResetCall p) \<longrightarrow>
            enabled (handleRecover recover_call rKey s, fl) ev \<longrightarrow>
            appState (fst (fire ev (handleRecover recover_call rKey s, fl))) \<noteq> RECOVERY_SUCCESS \<longrightarrow>
            (\<exists>pwd. ev = ResetSettled pwd (Inr ()))) \<and>
         (\<forall>u. reset_call newPwd = Inr u \<longrightarrow>
            handlePasswordReset reset_call newPwd (handleRecover recover_call rKey s) =
              (Inr (), (handleRecover recover_call rKey s)\<lparr>appState := UNLOCKED\<rparr>)) \<and>
         (\<forall>e. reset_call newPwd = Inl e \<longrightarrow>
            fst (handlePasswordReset reset_call newPwd (handleRecover recover_call rKey s))
              = Inl e \<and>
            appState (snd (handlePasswordReset reset_call newPwd
              (handleRecover recover_call rKey s))) = RECOVERY_SUCCESS \<and>
            items (snd (handlePasswordReset reset_call newPwd
              (handleRecover recover_call rKey s))) = decrypted)"
proof -
  let ?s1 = "handleRecover recover_call rKey s"
  have s1: "?s1 = s\<lparr>error := None, items := decrypted, appState := RECOVERY_SUCCESS\<rparr>"
    using assms by (simp add: handleRecover_def)
  have out: "\<exists>pwd. ev = ResetSettled pwd (Inr ())"
    if "\<forall>c \<in> set fl. \<exists>p. c = ResetCall p" "enabled (?s1, fl) ev"
      "appState (fst (fire ev (?s1, fl))) \<noteq> RECOVERY_SUCCESS"
    for ev :: "'e event" and fl
    using that unfolding s1
    by (cases ev)
       (auto simp: handleVisibilityChange_def handlePasswordReset_sync_def
          handlePasswordReset_settle_def split: sum.splits)
  show ?thesis
    using out by (simp add: s1 handlePasswordReset_def)
qed

theorem recover_then_reset_witness:
  "appState \<lparr>appState = LOCKED, items = [], recoveryKey = None, error = None\<rparr> = LOCKED \<and>
   handleRecover (\<lambda>k. Inr [\<lparr>id_item = ''1'', title = ''Example'', username = ''a@b.com'',
       password = ''x''\<rparr>] :: string + VaultItem list) ''00ff''
     \<lparr>appState = LOCKED, items = [], recoveryKey = None, error = None\<rparr> =
     \<lparr>appState = RECOVERY_SUCCESS,
      items = [\<lparr>id_item = ''1'', title = ''Example'', username = ''a@b.com'', password = ''x''\<rparr>],
      recoveryKey = None, error = None\<rparr> \<and>
   handlePasswordReset (\<lambda>p. Inr () :: string + unit) ''NewPass9!''
     (handleRecover (\<lambda>k. Inr [\<lparr>id_item = ''1'', title = ''Example'', username = ''a@b.com'',
       password = ''x''\<rparr>] :: string + VaultItem list) ''00ff''
       \<lparr>appState = LOCKED, items = [], recoveryKey = None, error = None\<rparr>) =
     (Inr (), \<lparr>appState = UNLOCKED,
      items = [\<lparr>id_item = ''1'', title = ''Example'', username = ''a@b.com'', password = ''x''\<rparr>],
      recoveryKey = None, error = None\<rparr>) \<and>
   appState (snd (handlePasswordReset (\<lambda>p. Inl ''StorageFailure'' :: string + unit) ''NewPass9!''
     (handleRecover (\<lambda>k. Inr [\<lparr>id_item = ''1'', title = ''Example'', username = ''a@b.com'',
       password = ''x''\<rparr>] :: string + VaultItem list) ''00ff''
       \<lparr>appState = LOCKED, items = [], recoveryKey = None, error = None\<rparr>))) = RECOVERY_SUCCESS"
  using recover_then_reset
    [of "\<lparr>appState = LOCKED, items = [], recoveryKey = None, error = None\<rparr>"
        "\<lambda>k. Inr [\<lparr>id_item = ''1'', title = ''Example'', username = ''a@b.com'',
           password = ''x''\<rparr>] :: string + VaultItem list" "''00ff''"
        "[\<lparr>id_item = ''1'', title = ''Example'', username = ''a@b.com'', password = ''x''\<rparr>]"
        "\<lambda>p. Inr () :: string + unit" "''NewPass9!''"]
    recover_then_reset
    [of "\<lparr>appState = LOCKED, items = [], recoveryKey = None, error = None\<rparr>"
        "\<lambda>k. Inr [\<lparr>id_item = ''1'', title = ''Example'', username = ''a@b.com'',
           password = ''x''\<rparr>] :: string + VaultItem list" "''00ff''"
        "[\<lparr>id_item = ''1'', title = ''Example'', username = ''a@b.com'', password = ''x''\<rparr>]"
        "\<lambda>p. Inl ''StorageFailure'' :: string + unit" "''NewPass9!''"]
  by (simp add: handleRecover_def handlePasswordReset_def)

subsection \<open>Process start\<close>

text \<open>
  Claim C8. At process start the state is \<open>LOADING\<close> and only the spinner is mounted:
  no handler can run before \<open>hasExistingVault\<close> has resolved, and a visibility change
  does nothing. The answer alone chooses the next state: \<open>LOCKED\<close> with the login
  screen (unlock offered, setup not) when it is true, \<open>SETUP\<close> with the setup screen
  (initialize offered, unlock not) when it is false; nothing else of the state changes.
  The check is not consulted again: no later run of the application returns to a state
  in which it is pending.
\<close>

theorem process_start_checkState:
  "appState initial = LOADING \<and> items initial = [] \<and> render (appState initial) = Spinner \<and>
   at_mount = (initial, []) \<and>
   (\<forall>ev :: 'e event. enabled at_mount ev \<longrightarrow>
      (\<exists>b. ev = CheckStateDone b) \<or> (\<exists>v. ev = VisibilityChange v \<and> fire ev at_mount = at_mount)) \<and>
   fire (CheckStateDone hasVault :: 'e event) at_mount =
     (initial\<lparr>appState := (if hasVault then LOCKED else SETUP)\<rparr>, []) \<and>
   render (appState (fst (fire (CheckStateDone hasVault :: 'e event) at_mount))) =
     (if hasVault then LoginScreen else SetupScreen) \<and>
   enabled (fire (CheckStateDone hasVault :: 'e event) at_mount)
     (UnlockSubmit pwd :: 'e event) = hasVault \<and>
   enabled (fire (CheckStateDone hasVault :: 'e event) at_mount)
     (SetupSubmit pwd :: 'e event) = (\<not> hasVault \<and> 75 \<le> strength pwd) \<and>
   (\<forall>(evs :: 'e event list) b.
      \<not> enabled (run evs (fire (CheckStateDone hasVault :: 'e event) at_mount))
          (CheckStateDone b :: 'e event))"
proof -
  have a: "(\<exists>b. ev = CheckStateDone b) \<or> (\<exists>v. ev = VisibilityChange v \<and> fire ev at_mount = at_mount)"
    if "enabled at_mount ev" for ev :: "'e event"
    using that by (cases ev) (simp_all add: at_mount_def initial_def handleVisibilityChange_def)
  have "appState (fst (fire (CheckStateDone hasVault :: 'e event) at_mount)) \<noteq> LOADING"
    by (simp add: at_mount_def checkState_def)
  then have
    "appState (fst (run evs (fire (CheckStateDone hasVault :: 'e event) at_mount))) \<noteq> LOADING"
    for evs :: "'e event list"
    by (rule never_loading_again)
  then have b: "\<not> enabled (run evs (fire (CheckStateDone hasVault :: 'e event) at_mount))
      (CheckStateDone c :: 'e event)" for evs :: "'e event list" and c
    by (cases "run evs (fire (CheckStateDone hasVault :: 'e event) at_mount)") (simp, metis fst_conv)
  show ?thesis
    using a b by (simp add: at_mount_def initial_def checkState_def)
qed

theorem process_start_checkState_witness:
  "enabled at_mount (CheckStateDone True :: unit event) \<and>
   enabled (fire (CheckStateDone True :: unit event) at_mount)
     (UnlockSubmit ''Sup3r$ecret!'' :: unit event) \<and>
   enabled (fire (CheckStateDone False :: unit event) at_mount)
     (SetupSubmit ''Sup3r$ecret!'' :: unit event) \<and>
   run [VisibilityChange Hidden, CheckStateDone True :: unit event] at_mount =
     (\<lparr>appState = LOCKED, items = [], recoveryKey = None, error = None\<rparr>, []) \<and>
   run [VisibilityChange Hidden, CheckStateDone False :: unit event] at_mount =
     (\<lparr>appState = SETUP, items = [], recoveryKey = None, error = None\<rparr>, []) \<and>
   \<not> enabled (run [UnlockSubmit ''pw'', UnlockSettled ''pw'' (Inr []), LockClick]
       (fire (CheckStateDone True :: unit event) at_mount)) (CheckStateDone False :: unit event)"
  using process_start_checkState [where ?'e = unit and hasVault = True and pwd = "''Sup3r$ecret!''"]
    process_start_checkState [where ?'e = unit and hasVault = False and pwd = "''Sup3r$ecret!''"]
  by (simp add: at_mount_def initial_def handleVisibilityChange_def checkState_def
      handleUnlock_sync_def handleUnlock_settle_def handleLock_def strength_def is_upper_def
      is_lower_def is_digit_def)

subsection \<open>Adding and deleting items\<close>

text \<open>
  Claim C10. \<open>handleAdd\<close> and \<open>handleDelete\<close> update the in-memory collection before
  \<open>saveVault\<close> is called and awaited: the state in which the handler waits already
  holds the collection handed to \<open>saveVault\<close>. The final state does not depend on
  how \<open>saveVault\<close> settles; when it rejects, the update is kept, \<open>error\<close> and
  \<open>appState\<close> are as before, and the in-memory collection differs from what the
  store holds (which held the collection in memory before the call). Add appends exactly one item, with the drawn id, after the existing
  items (so ids stay distinct when the drawn id is fresh); delete keeps exactly the
  items whose id differs from the given one, in their order.
\<close>

theorem add_delete_update_before_save:
  "fst (handleAdd_sync uuid t u p s) =
     items s @ [\<lparr>id_item = uuid, title = t, username = u, password = p\<rparr>] \<and>
   items (snd (handleAdd_sync uuid t u p s)) = fst (handleAdd_sync uuid t u p s) \<and>
   handleAdd save_call uuid t u p s =
     (save_call (items s @ [\<lparr>id_item = uuid, title = t, username = u, password = p\<rparr>]),
      s\<lparr>items := items s @ [\<lparr>id_item = uuid, title = t, username = u, password = p\<rparr>]\<rparr>) \<and>
   (distinct (map id_item (items s)) \<and> uuid \<notin> set (map id_item (items s)) \<longrightarrow>
      distinct (map id_item (items (snd (handleAdd save_call uuid t u p s))))) \<and>
   (\<forall>e. fst (handleAdd save_call uuid t u p s) = Inl e \<longrightarrow>
      error (snd (handleAdd save_call uuid t u p s)) = error s \<and>
      appState (snd (handleAdd save_call uuid t u p s)) = appState s \<and>
      items (snd (handleAdd save_call uuid t u p s)) \<noteq>
        persisted_after (fst (handleAdd save_call uuid t u p s))
          (fst (handleAdd_sync uuid t u p s)) (items s)) \<and>
   fst (handleDelete_sync i s) = filter (\<lambda>x. id_item x \<noteq> i) (items s) \<and>
   items (snd (handleDelete_sync i s)) = fst (handleDelete_sync i s) \<and>
   handleDelete save_call i s =
     (save_call (filter (\<lambda>x. id_item x \<noteq> i) (items s)),
      s\<lparr>items := filter (\<lambda>x. id_item x \<noteq> i) (items s)\<rparr>) \<and>
   (\<forall>x. x \<in> set (items (snd (handleDelete save_call i s))) \<longleftrightarrow>
      x \<in> set (items s) \<and> id_item x \<noteq> i) \<and>
   subseq (items (snd (handleDelete save_call i s))) (items s) \<and>
   (\<forall>e. fst (handleDelete save_call i s) = Inl e \<longrightarrow>
      error (snd (handleDelete save_call i s)) = error s \<and>
      appState (snd (handleDelete save_call i s)) = appState s \<and>
      (i \<in> set (map id_item (items s)) \<longrightarrow>
         items (snd (handleDelete save_call i s)) \<noteq>
           persisted_after (fst (handleDelete save_call i s))
             (fst (handleDelete_sync i s)) (items s)))"
proof -
  let ?new = "\<lparr>id_item = uuid, title = t, username = u, password = p\<rparr>"
  let ?kept = "filter (\<lambda>x. id_item x \<noteq> i) (items s)"
  have add: "handleAdd save_call uuid t u p s =
      (save_call (items s @ [?new]), s\<lparr>items := items s @ [?new]\<rparr>)"
    by (simp add: handleAdd_def handleAdd_sync_def Let_def)
  have del: "handleDelete save_call i s = (save_call ?kept, s\<lparr>items := ?kept\<rparr>)"
    by (simp add: handleDelete_def handleDelete_sync_def Let_def)
  have shorter: "?kept \<noteq> items s" if "i \<in> set (map id_item (items s))"
  proof
    assume "?kept = items s"
    then have "\<forall>x \<in> set (items s). id_item x \<noteq> i"
      by (metis (mono_tags, lifting) filter_id_conv)
    with that show False by auto
  qed
  show ?thesis
    unfolding add del
    using shorter
    by (auto simp: handleAdd_sync_def handleDelete_sync_def persisted_after_def Let_def)
qed

theorem add_delete_update_before_save_witness:
  "handleAdd (\<lambda>c. Inl ''StorageFailure'') ''2'' ''Mail'' ''me'' ''pw''
     \<lparr>appState = UNLOCKED,
      items = [\<lparr>id_item = ''1'', title = ''Example'', username = ''a@b.com'', password = ''x''\<rparr>],
      recoveryKey = None, error = None\<rparr> =
   (Inl ''StorageFailure'',
    \<lparr>appState = UNLOCKED,
      items = [\<lparr>id_item = ''1'', title = ''Example'', username = ''a@b.com'', password = ''x''\<rparr>,
               \<lparr>id_item = ''2'', title = ''Mail'', username = ''me'', password = ''pw''\<rparr>],
      recoveryKey = None, error = None\<rparr>) \<and>
   distinct (map id_item (items (snd (handleAdd (\<lambda>c. Inl ''StorageFailure'') ''2'' ''Mail'' ''me'' ''pw''
     \<lparr>appState = UNLOCKED,
      items = [\<lparr>id_item = ''1'', title = ''Example'', username = ''a@b.com'', password = ''x''\<rparr>],
      recoveryKey = None, error = None\<rparr>)))) \<and>
   handleDelete (\<lambda>c. Inl ''StorageFailure'') ''1''
     \<lparr>appState = UNLOCKED,
      items = [\<lparr>id_item = ''1'', title = ''Example'', username = ''a@b.com'', password = ''x''\<rparr>],
      recoveryKey = None, error = None\<rparr> =
   (Inl ''StorageFailure'',
    \<lparr>appState = UNLOCKED, items = [], recoveryKey = None, error = None\<rparr>) \<and>
   persisted_after (Inl ''StorageFailure'' :: string + unit) []
     [\<lparr>id_item = ''1'', title = ''Example'', username = ''a@b.com'', password = ''x''\<rparr>] =
     [\<lparr>id_item = ''1'', title = ''Example'', username = ''a@b.com'', password = ''x''\<rparr>]"
  using add_delete_update_before_save
    [of "''2''" "''Mail''" "''me''" "''pw''"
        "\<lparr>appState = UNLOCKED,
          items = [\<lparr>id_item = ''1'', title = ''Example'', username = ''a@b.com'', password = ''x''\<rparr>],
          recoveryKey = None, error = None\<rparr>"
        "\<lambda>c. Inl ''StorageFailure''" "''1''"]
  by (simp add: persisted_after_def)

section \<open>Properties of the vault engine\<close>

text \<open>
  The properties of this section are about the engine as the specification describes
  it, for any leaf modules that meet their contracts.
\<close>

subsection \<open>The instance meets the contracts\<close>

lemma toy_aead_correct: "aead_correct toy"
  by (simp add: aead_correct_def toy_def toy_seal_def toy_unseal_def)

lemma toy_aead_fails_closed: "aead_fails_closed toy"
  by (simp add: aead_fails_closed_def toy_def toy_seal_def toy_unseal_def)

lemma char_of_byte: "char_of (unat (of_char c :: 8 word)) = c"
proof -
  have "unat (of_char c :: 8 word) = unat (of_nat (of_char c) :: 8 word)"
    by (simp only: of_nat_of_char)
  also have "\<dots> = (of_char c :: nat) mod 256"
    by (simp add: unat_of_nat)
  finally show ?thesis by simp
qed

lemma read_write_string:
  "read_strings cur (write_string s @ bs) =
     map_option ((#) (rev cur @ s)) (read_strings [] bs)"
proof (induction s arbitrary: cur)
  case Nil
  show ?case
  proof (cases bs)
    case Nil
    then show ?thesis by simp
  next
    case (Cons b bs')
    then show ?thesis by simp
  qed
next
  case (Cons c s)
  then show ?case by (simp add: char_of_byte)
qed

lemma read_written_strings:
  "read_strings [] (concat (map write_string ss)) = Some ss"
  by (induction ss) (simp_all add: read_write_string)

lemma strings_items_inverse: "strings_items (item_strings xs) = Some xs"
  by (induction xs) simp_all

lemma toy_serialize_correct: "serialize_correct toy"
  by (simp add: serialize_correct_def toy_def toy_serialize_def toy_deserialize_def
      read_written_strings strings_items_inverse)

subsection \<open>Round trip\<close>

text \<open>
  Claim C1. For every password \<open>P\<close> and every item collection \<open>C\<close>: starting with no
  vault, \<open>initialize(P)\<close>, then \<open>save(C)\<close>, then \<open>lock()\<close>, then \<open>unlock(P)\<close> all succeed
  (the store accepting both writes) and the unlock returns \<open>C\<close> itself, so also the
  same items whatever the order. The leaf modules are any that meet their contracts.
\<close>

theorem initialize_save_lock_unlock:
  assumes "aead_correct cr" and "serialize_correct cr"
  shows "\<exists>e1 e2 e3.
           initializeVault cr ent True P no_vault = (Inr (fresh_recovery_secret ent), e1) \<and>
           state_of e1 = Unlocked \<and>
           saveVault cr n True C e1 = (Inr (), e2) \<and>
           state_of e2 = Unlocked \<and>
           state_of (lock e2) = Locked \<and>
           unlockVault cr P (lock e2) = (Inr C, e3) \<and>
           state_of e3 = Unlocked \<and>
           held_items (the (session e3)) = C \<and>
           mset (held_items (the (session e3))) = mset C"
proof -
  have op: "unseal cr k m (seal cr k m p) = Some p" for k m p
    using assms(1) by (simp add: aead_correct_def)
  have de: "deserialize cr (serialize cr c) = Some c" for c
    using assms(2) by (simp add: serialize_correct_def)
  show ?thesis
    by (simp add: initializeVault_def saveVault_def lock_def unlockVault_def no_vault_def
        state_of_def vek_by_password_def unwrap_def wrap_def open_items_def op de Let_def)
qed

theorem initialize_save_lock_unlock_witness:
  "aead_correct toy \<and> serialize_correct toy \<and>
   fst (unlockVault toy ''Sup3r$ecret!''
     (lock (snd (saveVault toy [8] True example_items
       (snd (initializeVault toy example_entropy True ''Sup3r$ecret!'' no_vault)))))) =
   Inr [\<lparr>id_item = ''1'', title = ''Example'', username = ''a@b.com'', password = ''x''\<rparr>]"
proof -
  obtain e1 e2 e3 where
    "initializeVault toy example_entropy True ''Sup3r$ecret!'' no_vault =
       (Inr (fresh_recovery_secret example_entropy), e1)"
    and "saveVault toy [8] True example_items e1 = (Inr (), e2)"
    and "unlockVault toy ''Sup3r$ecret!'' (lock e2) = (Inr example_items, e3)"
    using initialize_save_lock_unlock
      [OF toy_aead_correct toy_serialize_correct, of example_entropy "''Sup3r$ecret!''"
         "[8]" example_items]
    by blast
  then show ?thesis
    using toy_aead_correct toy_serialize_correct by (simp add: example_items_def)
qed

subsection \<open>Dual escrow\<close>

lemma escrow_ok_initialize:
  assumes "aead_correct cr"
  shows "escrow_ok cr (fresh_vek ent) (fresh_recovery_secret ent)
           (snd (initializeVault cr ent True P no_vault), P)"
proof -
  have "unseal cr k m (seal cr k m p) = Some p" for k m p
    using assms by (simp add: aead_correct_def)
  then show ?thesis
    by (auto simp: escrow_ok_def initializeVault_def no_vault_def vek_by_password_def
        vek_by_recovery_def unwrap_def wrap_def Let_def)
qed

lemma unwrap_sealed:
  assumes "aead_fails_closed cr"
    and "ciphertext w = seal cr wk (nonce w) k"
    and "unwrap cr key w = Inr k'"
  shows "k' = k"
proof -
  from assms(3) have "unseal cr key (nonce w) (ciphertext w) = Some k'"
    by (simp add: unwrap_def split: option.splits)
  with assms(1,2) show ?thesis
    unfolding aead_fails_closed_def by metis
qed

lemma escrow_ok_step:
  assumes ok: "aead_correct cr" and closed: "aead_fails_closed cr"
    and inv: "escrow_ok cr k secret st"
  shows "escrow_ok cr k secret (apply_op cr x st)"
proof -
  obtain e master where st: "st = (e, master)"
    by (cases st)
  from inv st obtain r where r: "stored e = Some r"
    by (auto simp: escrow_ok_def split: option.splits)
  note facts = inv[unfolded st escrow_ok_def, simplified, unfolded r, simplified]
  have op: "unseal cr key m (seal cr key m p) = Some p" for key m p
    using ok by (simp add: aead_correct_def)
  show ?thesis
  proof (cases x)
    case (OpInitialize ent w pwd)
    with inv st r show ?thesis
      by (simp add: initializeVault_def)
  next
    case (OpUnlock pwd)
    have "k' = k" if "vek_by_password cr pwd r = Inr k'" for k'
      using facts that unwrap_sealed[OF closed] unfolding vek_by_password_def by blast
    with facts st r OpUnlock show ?thesis
      by (auto simp: escrow_ok_def unlockVault_def split: sum.splits)
  next
    case (OpRecover sec)
    have "k' = k" if "vek_by_recovery cr sec r = Inr k'" for k'
      using facts that unwrap_sealed[OF closed] unfolding vek_by_recovery_def by blast
    with facts st r OpRecover show ?thesis
      by (auto simp: escrow_ok_def recoverVault_def split: sum.splits)
  next
    case (OpReset ent w newPwd)
    with facts st r show ?thesis
      by (auto simp: escrow_ok_def resetMasterPassword_def vek_by_password_def
          vek_by_recovery_def unwrap_def wrap_def op split: option.splits)
  next
    case (OpSave m w its)
    with facts st r show ?thesis
      by (auto simp: escrow_ok_def saveVault_def vek_by_password_def vek_by_recovery_def
          split: option.splits)
  next
    case OpLock
    with facts st r show ?thesis
      by (auto simp: escrow_ok_def lock_def)
  qed
qed

lemma escrow_ok_steps:
  assumes "aead_correct cr" and "aead_fails_closed cr"
  shows "escrow_ok cr k secret st \<Longrightarrow> escrow_ok cr k secret (apply_ops cr xs st)"
proof (induction xs arbitrary: st)
  case Nil
  then show ?case by simp
next
  case (Cons x xs)
  from Cons.prems have "escrow_ok cr k secret (apply_op cr x st)"
    by (rule escrow_ok_step[OF assms])
  then show ?case
    using Cons.IH by simp
qed

text \<open>
  Claim C2. Take the record \<open>initialize\<close> wrote and let any sequence of later
  operations run on the engine (with any outcomes of their writes and any random
  draws). In the record then stored, the VEK unwrapped on the password path, under the
  key derived from the master password in force, and the VEK unwrapped on the recovery
  path, under the key derived from the recovery secret, are the same bytes: the VEK
  \<open>initialize\<close> drew. So, from the locked engine, \<open>unlock\<close> with that password and
  \<open>recover\<close> with that secret both succeed and return the same item collection.
\<close>

theorem dual_escrow_same_vek:
  assumes "aead_correct cr" and "aead_fails_closed cr" and "serialize_correct cr"
  shows "\<exists>e master r its.
           apply_ops cr ops (snd (initializeVault cr ent True P no_vault), P) = (e, master) \<and>
           stored e = Some r \<and>
           vek_by_password cr master r = Inr (fresh_vek ent) \<and>
           vek_by_recovery cr (fresh_recovery_secret ent) r = Inr (fresh_vek ent) \<and>
           fst (unlockVault cr master (lock e)) = Inr its \<and>
           fst (recoverVault cr (fresh_recovery_secret ent) (lock e)) = Inr its"
proof -
  let ?k = "fresh_vek ent" and ?R = "fresh_recovery_secret ent"
  obtain e master where
    run: "apply_ops cr ops (snd (initializeVault cr ent True P no_vault), P) = (e, master)"
    by (cases "apply_ops cr ops (snd (initializeVault cr ent True P no_vault), P)")
  have "escrow_ok cr ?k ?R (e, master)"
    using escrow_ok_steps[OF assms(1,2) escrow_ok_initialize[OF assms(1), of ent P], of ops] run
    by simp
  then obtain r c where r: "stored e = Some r"
    and pw: "vek_by_password cr master r = Inr ?k"
    and rc: "vek_by_recovery cr ?R r = Inr ?k"
    and it: "items_ciphertext r = seal cr ?k (items_nonce r) (serialize cr c)"
    by (auto simp: escrow_ok_def split: option.splits)
  have "open_items cr ?k r = Inr c"
    using assms(1,3) it by (simp add: open_items_def aead_correct_def serialize_correct_def)
  then have "fst (unlockVault cr master (lock e)) = Inr c"
    and "fst (recoverVault cr ?R (lock e)) = Inr c"
    using r pw rc by (simp_all add: unlockVault_def recoverVault_def lock_def)
  with run r pw rc show ?thesis
    by blast
qed

theorem dual_escrow_same_vek_witness:
  "aead_correct toy \<and> aead_fails_closed toy \<and> serialize_correct toy \<and>
   (\<exists>e r.
      apply_ops toy
        [OpSave [8] True example_items, OpLock, OpUnlock ''wrong'',
         OpRecover (fresh_recovery_secret example_entropy),
         OpReset example_reset True ''NewPass9!'', OpLock]
        (snd (initializeVault toy example_entropy True ''Sup3r$ecret!'' no_vault),
         ''Sup3r$ecret!'') = (e, ''NewPass9!'') \<and>
      stored e = Some r \<and>
      vek_by_password toy ''NewPass9!'' r = Inr [11, 22, 33, 44] \<and>
      vek_by_recovery toy ''00112233445566778899aabbccddeeff0011223344556677'' r =
        Inr [11, 22, 33, 44])"
proof -
  let ?ops = "[OpSave [8] True example_items, OpLock, OpUnlock ''wrong'',
         OpRecover (fresh_recovery_secret example_entropy),
         OpReset example_reset True ''NewPass9!'', OpLock]"
  let ?st = "apply_ops toy ?ops
    (snd (initializeVault toy example_entropy True ''Sup3r$ecret!'' no_vault), ''Sup3r$ecret!'')"
  have master: "snd ?st = ''NewPass9!''"
    by (simp add: initializeVault_def saveVault_def lock_def unlockVault_def recoverVault_def
        resetMasterPassword_def no_vault_def vek_by_password_def vek_by_recovery_def
        unwrap_def wrap_def open_items_def derived_key_def secret_bytes_def toy_def
        toy_derive_def toy_seal_def toy_unseal_def toy_serialize_def toy_deserialize_def
        example_entropy_def example_items_def example_reset_def Let_def)
  show ?thesis
    using dual_escrow_same_vek
      [OF toy_aead_correct toy_aead_fails_closed toy_serialize_correct,
       where ops = ?ops and ent = example_entropy and P = "''Sup3r$ecret!''"]
      master toy_aead_correct toy_aead_fails_closed toy_serialize_correct
    by (auto simp: example_entropy_def)
qed

subsection \<open>Password generator\<close>

lemma pick_in_class: "cls \<noteq> [] \<Longrightarrow> pick cls r \<in> set cls"
  by (simp add: pick_def)

lemma generate_covers_classes:
  assumes "length classes \<le> len" and "classes \<noteq> []" and "[] \<notin> set classes"
  shows "\<exists>s. generate rng len classes = Inr s \<and> length s = len \<and>
             (\<forall>i < length classes. s ! i \<in> set (classes ! i))"
proof -
  let ?req = "map (\<lambda>i. pick (classes ! i) (rng i)) [0..<length classes]"
  let ?rest = "map (\<lambda>i. pick (concat classes) (rng i)) [length classes..<len]"
  have gen: "generate rng len classes = Inr (?req @ ?rest)"
    using assms by (simp add: generate_def)
  have len: "length (?req @ ?rest) = len"
    using assms(1) by simp
  have "(?req @ ?rest) ! i \<in> set (classes ! i)" if "i < length classes" for i
  proof -
    have "classes ! i \<noteq> []"
      using assms(3) that by (metis nth_mem)
    then have "pick (classes ! i) (rng i) \<in> set (classes ! i)"
      by (rule pick_in_class)
    with that show ?thesis
      by (simp add: nth_append)
  qed
  with gen len show ?thesis
    by blast
qed

text \<open>
  Claim C9. Whatever numbers the random number generator hands out, a call of
  \<open>generateSecurePassword\<close> with length 16 returns a string of exactly 16 characters
  with at least one uppercase letter, one lowercase letter, one digit and one symbol.
\<close>

theorem generateSecurePassword_16:
  "\<exists>s. generateSecurePassword rng 16 = Inr s \<and> length s = 16 \<and>
       (\<exists>c \<in> set s. c \<in> set uppercase) \<and>
       (\<exists>c \<in> set s. c \<in> set lowercase) \<and>
       (\<exists>c \<in> set s. c \<in> set digits) \<and>
       (\<exists>c \<in> set s. c \<in> set symbols)"
proof -
  let ?classes = "[uppercase, lowercase, digits, symbols]"
  have "[] \<notin> set ?classes"
    by (simp add: uppercase_def lowercase_def digits_def symbols_def)
  then obtain s where s: "generate rng 16 ?classes = Inr s" and len: "length s = 16"
    and cover: "\<forall>i < length ?classes. s ! i \<in> set (?classes ! i)"
    using generate_covers_classes[of ?classes 16 rng] by auto
  have "s ! 0 \<in> set uppercase" and "s ! 1 \<in> set lowercase"
    and "s ! 2 \<in> set digits" and "s ! 3 \<in> set symbols"
    using cover[rule_format, of 0] cover[rule_format, of 1] cover[rule_format, of 2]
      cover[rule_format, of 3]
    by simp_all
  moreover have "s ! 0 \<in> set s" and "s ! 1 \<in> set s" and "s ! 2 \<in> set s" and "s ! 3 \<in> set s"
    using len by simp_all
  ultimately show ?thesis
    using s len unfolding generateSecurePassword_def by blast
qed

theorem generateSecurePassword_16_witness:
  "generateSecurePassword (\<lambda>i. 7 * i + 3) 16 = Inr ''Dk7-fmt07%_ELSZg''"
  using generateSecurePassword_16 [of "\<lambda>i. 7 * i + 3"]
  by (simp add: generateSecurePassword_def generate_def pick_def uppercase_def lowercase_def
      digits_def symbols_def upt_rec)

end
